theory Spec2Isabelle
  imports Main "HOL-Library.Char_ord" "HOL-Library.List_Lexorder"
begin

section \<open>Data model of dump.go\<close>

text \<open>
  The configuration struct \<^verbatim>\<open>sqlite3dumper\<close> and the catalog row struct
  \<^verbatim>\<open>schema\<close>, field by field. Go strings are byte strings, here \<^typ>\<open>string\<close>;
  the order on them (Go's and the engine's BINARY collation: bytewise, lexicographic)
  is the lexicographic order on character lists.
\<close>

record sqlite3dumper =
  migration :: bool
  dropIfExists :: bool
  wrapWithTransaction :: bool

record schema =
  Name :: string
  Type :: string
  SQL :: string

text \<open>
  Go error values. \<open>ErrNotExist p\<close> is the error of \<^verbatim>\<open>os.Stat\<close> for a path
  that does not exist (the one \<^verbatim>\<open>os.IsNotExist\<close> recognises); \<open>ErrFailedToWrite\<close>
  is the value built by \<^verbatim>\<open>fmt.Errorf("failed to write '%q': %s", statement, err)\<close>,
  kept with its two arguments; \<open>ErrOther\<close> is any other error, by its message.
\<close>

datatype error =
    ErrNotExist string
  | ErrFailedToWrite string error
  | ErrOther string

subsection \<open>The output stream\<close>

text \<open>
  An \<^verbatim>\<open>io.Writer\<close>. \<open>written\<close> is what has reached the stream, one entry for each
  call of \<^verbatim>\<open>Write\<close>; \<open>faults\<close> fixes the outcome of the coming calls, in order:
  \<open>None\<close> is a successful call, \<open>Some (n, err)\<close> a call that writes the first \<open>n\<close>
  bytes only and returns \<open>err\<close>. Once the list is used up every call succeeds.
\<close>

record writer =
  written :: "string list"
  faults :: "(nat \<times> error) option list"

definition Write :: "writer \<Rightarrow> string \<Rightarrow> error option \<times> writer" where
  "Write w p =
     (case faults w of
        [] \<Rightarrow> (None, w\<lparr>written := written w @ [p]\<rparr>)
      | None # fs \<Rightarrow> (None, w\<lparr>written := written w @ [p], faults := fs\<rparr>)
      | Some (n, err) # fs \<Rightarrow> (Some err, w\<lparr>written := written w @ [take n p], faults := fs\<rparr>))"

definition contents :: "writer \<Rightarrow> string" where
  "contents w = concat (written w)"

definition emptyWriter :: writer where
  "emptyWriter = \<lparr>written = [], faults = []\<rparr>"

subsection \<open>The database handle\<close>

text \<open>
  A \<^verbatim>\<open>*sql.DB\<close> is used through \<^verbatim>\<open>Prepare\<close>, \<^verbatim>\<open>Query\<close>, and the row
  cursor. The handle answers a query text with a failure of \<^verbatim>\<open>Prepare\<close>, a failure
  of \<^verbatim>\<open>Query\<close>, or a cursor: the outcome of \<^verbatim>\<open>rows.Scan\<close> for each row that
  \<^verbatim>\<open>rows.Next\<close> delivers, and the final \<^verbatim>\<open>rows.Err()\<close>.
\<close>

datatype query_result =
    PrepareError error
  | QueryError error
  | QueryRows "(error + schema) list" "error option"

type_synonym DB = "string \<Rightarrow> query_result"

text \<open>The process environment of \<^verbatim>\<open>dump\<close>: \<^verbatim>\<open>os.Stat\<close> and \<^verbatim>\<open>sql.Open("sqlite3", _)\<close>.\<close>

record env =
  Stat :: "string \<Rightarrow> error option"
  Open :: "string \<Rightarrow> error + DB"

section \<open>The operations\<close>

subsection \<open>Configuration\<close>

type_synonym Option = "sqlite3dumper \<Rightarrow> sqlite3dumper"

definition newSqlite3Dumper :: "Option list \<Rightarrow> sqlite3dumper" where
  "newSqlite3Dumper opts =
     (let dumper = \<lparr>migration = False, dropIfExists = False, wrapWithTransaction = True\<rparr>
      in if length opts = 0 then dumper
         else foldl (\<lambda>d option. option d) dumper opts)"

text \<open>
  Modelled from the spec: the option constructor \<^verbatim>\<open>WithMigration\<close>, which
  \<^verbatim>\<open>DumpMigration\<close> calls and whose file is not among the sources. The spec's
  configuration surface: "schema-only / migration mode: suppress table CREATE
  statements", one of three independent options; so it sets the flag \<open>migration\<close> and
  leaves the others.
\<close>

definition WithMigration :: Option where
  "WithMigration = (\<lambda>s3d. s3d\<lparr>migration := True\<rparr>)"

subsection \<open>Strings\<close>

definition HasPrefix :: "string \<Rightarrow> string \<Rightarrow> bool" where
  "HasPrefix s p = (length s \<ge> length p \<and> take (length p) s = p)"

definition HasSuffix :: "string \<Rightarrow> string \<Rightarrow> bool" where
  "HasSuffix s suffix = (length s \<ge> length suffix \<and> drop (length s - length suffix) s = suffix)"

subsection \<open>Reading the catalog\<close>

fun scanRows :: "(error + schema) list \<Rightarrow> error option \<Rightarrow> schema list \<Rightarrow> schema list \<times> error option" where
  "scanRows [] rowsErr schemas = (schemas, rowsErr)"
| "scanRows (Inl err # rest) rowsErr schemas = (schemas, Some err)"
| "scanRows (Inr s # rest) rowsErr schemas = scanRows rest rowsErr (schemas @ [s])"

definition getSchemas :: "DB \<Rightarrow> string \<Rightarrow> schema list \<times> error option" where
  "getSchemas db q =
     (case db q of
        PrepareError err \<Rightarrow> ([], Some err)
      | QueryError err \<Rightarrow> ([], Some err)
      | QueryRows rs rowsErr \<Rightarrow> scanRows rs rowsErr [])"

text \<open>The two query texts of \<^verbatim>\<open>dumpDB\<close>, byte for byte (0x0A newline, 0x09 tab).\<close>

definition tableSchemasQuery :: string where
  \<open>tableSchemasQuery = concat
     [[CHR 0x0A],
      ''        SELECT "name", "type", "sql"'', [CHR 0x0A],
      ''        FROM "sqlite_master"'', [CHR 0x0A],
      ''            WHERE "sql" NOT NULL AND'', [CHR 0x0A],
      ''            "type" == '', [CHR 0x27], ''table'', [CHR 0x27], [CHR 0x0A],
      ''            ORDER BY "name"'', [CHR 0x0A],
      [CHR 0x09, CHR 0x09]]\<close>

definition otherSchemasQuery :: string where
  \<open>otherSchemasQuery = concat
     [[CHR 0x0A],
      [CHR 0x09, CHR 0x09], ''SELECT "name", "type", "sql"'', [CHR 0x0A],
      ''        FROM "sqlite_master"'', [CHR 0x0A],
      ''            WHERE "sql" NOT NULL AND'', [CHR 0x0A],
      ''            "type" IN ('index', 'trigger', 'view')'', [CHR 0x0A],
      [CHR 0x09, CHR 0x09]]\<close>

subsection \<open>The drop phase\<close>

text \<open>
  The \<^verbatim>\<open>switch\<close> of \<^verbatim>\<open>writeDropStatements\<close>: the statement for one catalog row, or
  \<open>None\<close> where the loop body runs \<^verbatim>\<open>continue\<close>. The name goes into the
  format string as it is (\<^verbatim>\<open>%s\<close>).
\<close>

definition dropStatement :: "schema \<Rightarrow> string option" where
  "dropStatement schema =
     (if Type schema = ''index'' then
        Some (''DROP INDEX IF EXISTS '' @ Name schema @ '';\<newline>'')
      else if Type schema = ''table'' then
        (if HasPrefix (Name schema) ''sqlite_'' then None
         else Some (''DROP TABLE IF EXISTS '' @ Name schema @ '';\<newline>''))
      else None)"

fun writeDropStatements :: "writer \<Rightarrow> schema list \<Rightarrow> error option \<times> writer" where
  "writeDropStatements w [] = (None, w)"
| "writeDropStatements w (schema # schemas) =
     (case dropStatement schema of
        None \<Rightarrow> writeDropStatements w schemas
      | Some statement \<Rightarrow>
          (case Write w statement of
             (Some err, w') \<Rightarrow> (Some (ErrFailedToWrite statement err), w')
           | (None, w') \<Rightarrow> writeDropStatements w' schemas))"

subsection \<open>The table phase and the other-schema phase\<close>

text \<open>
  The body of the loop over \<^verbatim>\<open>tableSchemas\<close>. Every \<^verbatim>\<open>out.Write\<close> of
  \<^verbatim>\<open>dumpDB\<close> drops its results, so only the writer's new state is kept.
\<close>

definition dumpTable :: "sqlite3dumper \<Rightarrow> writer \<Rightarrow> schema \<Rightarrow> writer" where
  \<open>dumpTable s3d out schema =
     (if Name schema = ''sqlite_sequence'' then
        snd (Write out ''DELETE FROM "sqlite_sequence";\<newline>'')
      else if Name schema = ''sqlite3_stat1'' then
        snd (Write out ''ANALYZE "sqlite_master";\<newline>'')
      else if HasPrefix (Name schema) ''sqlite_'' then out
      else if HasSuffix (Name schema) ''_segments'' \<or> HasSuffix (Name schema) ''_segdir''
           \<or> HasSuffix (Name schema) ''_stat'' \<or> HasSuffix (Name schema) ''_idx''
           \<or> HasSuffix (Name schema) ''_docsize'' \<or> HasSuffix (Name schema) ''_config''
           \<or> HasSuffix (Name schema) ''_data'' \<or> HasSuffix (Name schema) ''_content''
      then out
      else if \<not> migration s3d then snd (Write out (SQL schema @ '';\<newline>''))
      else out)\<close>

definition dumpOther :: "writer \<Rightarrow> schema \<Rightarrow> writer" where
  "dumpOther out schema = snd (Write out (SQL schema @ '';\<newline>''))"

subsection \<open>The orchestrator\<close>

definition dumpDB :: "sqlite3dumper \<Rightarrow> DB \<Rightarrow> writer \<Rightarrow> error option \<times> writer" where
  "dumpDB s3d db out =
     (let out1 = (if wrapWithTransaction s3d
                  then snd (Write out ''BEGIN TRANSACTION;\<newline>'') else out)
      in case getSchemas db tableSchemasQuery of
           (_, Some err) \<Rightarrow> (Some err, out1)
         | (tableSchemas, None) \<Rightarrow>
             (case getSchemas db otherSchemasQuery of
                (_, Some err) \<Rightarrow> (Some err, out1)
              | (otherSchemas, None) \<Rightarrow>
                  (case (if dropIfExists s3d
                         then writeDropStatements out1 (otherSchemas @ tableSchemas)
                         else (None, out1)) of
                     (Some err, out2) \<Rightarrow> (Some err, out2)
                   | (None, out2) \<Rightarrow>
                       (let out3 = foldl (dumpTable s3d) out2 tableSchemas;
                            out4 = foldl dumpOther out3 otherSchemas;
                            out5 = (if wrapWithTransaction s3d
                                    then snd (Write out4 ''COMMIT;\<newline>'') else out4)
                        in (None, out5)))))"

definition IsNotExist :: "error option \<Rightarrow> bool" where
  "IsNotExist err = (case err of Some (ErrNotExist _) \<Rightarrow> True | _ \<Rightarrow> False)"

text \<open>
  \<^verbatim>\<open>dump\<close>: the result \<^verbatim>\<open>err\<close> is the function's named result, so the bare
  \<^verbatim>\<open>return\<close> after \<^verbatim>\<open>os.Stat\<close> returns the error \<^verbatim>\<open>os.Stat\<close> gave.
\<close>

definition dump :: "env \<Rightarrow> sqlite3dumper \<Rightarrow> string \<Rightarrow> writer \<Rightarrow> error option \<times> writer" where
  "dump os s3d dbName out =
     (let err = Stat os dbName
      in if IsNotExist err then (err, out)
         else (case Open os dbName of
                 Inl err \<Rightarrow> (Some err, out)
               | Inr db \<Rightarrow> dumpDB s3d db out))"

definition Dump :: "env \<Rightarrow> string \<Rightarrow> writer \<Rightarrow> Option list \<Rightarrow> error option \<times> writer" where
  "Dump os dbName out opts = dump os (newSqlite3Dumper opts) dbName out"

definition DumpDB :: "DB \<Rightarrow> writer \<Rightarrow> Option list \<Rightarrow> error option \<times> writer" where
  "DumpDB db out opts = dumpDB (newSqlite3Dumper opts) db out"

definition DumpMigration :: "DB \<Rightarrow> writer \<Rightarrow> error option \<times> writer" where
  "DumpMigration db out = dumpDB (newSqlite3Dumper [WithMigration]) db out"

section \<open>The statements of a dump\<close>

text \<open>
  The statements of each phase are read off the code: they are what the phase writes to
  an empty stream on which every call of \<^verbatim>\<open>Write\<close> succeeds.
\<close>

definition beginStatements :: "sqlite3dumper \<Rightarrow> string list" where
  "beginStatements s3d =
     written (if wrapWithTransaction s3d
              then snd (Write emptyWriter ''BEGIN TRANSACTION;\<newline>'') else emptyWriter)"

definition commitStatements :: "sqlite3dumper \<Rightarrow> string list" where
  "commitStatements s3d =
     written (if wrapWithTransaction s3d
              then snd (Write emptyWriter ''COMMIT;\<newline>'') else emptyWriter)"

definition dropStatements :: "schema list \<Rightarrow> string list" where
  "dropStatements schemas = written (snd (writeDropStatements emptyWriter schemas))"

definition tableStatements :: "sqlite3dumper \<Rightarrow> schema list \<Rightarrow> string list" where
  "tableStatements s3d schemas = written (foldl (dumpTable s3d) emptyWriter schemas)"

definition otherStatements :: "schema list \<Rightarrow> string list" where
  "otherStatements schemas = written (foldl dumpOther emptyWriter schemas)"

text \<open>The rows of the table catalog for which the table phase writes a statement.\<close>

definition emittingTables :: "sqlite3dumper \<Rightarrow> schema list \<Rightarrow> schema list" where
  "emittingTables s3d tables = filter (\<lambda>s. tableStatements s3d [s] \<noteq> []) tables"

text \<open>The suffixes of the auxiliary tables of a full-text index, as \<^verbatim>\<open>dumpDB\<close> lists them.\<close>

definition fts5Suffixes :: "string list" where
  "fts5Suffixes = [''_segments'', ''_segdir'', ''_stat'', ''_idx'', ''_docsize'', ''_config'',
     ''_data'', ''_content'']"

definition hasFTS5Suffix :: "string \<Rightarrow> bool" where
  "hasFTS5Suffix name = list_ex (HasSuffix name) fts5Suffixes"

text \<open>The two tables that get a statement of their own in place of their definition.\<close>

definition specialTable :: "schema \<Rightarrow> bool" where
  "specialTable s = (Name s = ''sqlite_sequence'' \<or> Name s = ''sqlite3_stat1'')"

section \<open>Sample inputs\<close>

text \<open>
  A database handle that answers the two catalog queries with the given rows, and
  fails to prepare any other text.
\<close>

definition catalogDB :: "schema list \<Rightarrow> schema list \<Rightarrow> DB" where
  "catalogDB tables others q =
     (if q = tableSchemasQuery then QueryRows (map Inr tables) None
      else if q = otherSchemasQuery then QueryRows (map Inr others) None
      else PrepareError (ErrOther ''unknown query''))"

text \<open>An environment without files: \<^verbatim>\<open>os.Stat\<close> finds no path.\<close>

definition noFiles :: env where
  "noFiles = \<lparr>Stat = (\<lambda>p. Some (ErrNotExist p)), Open = (\<lambda>p. Inr (catalogDB [] []))\<rparr>"

text \<open>A stream whose first \<^verbatim>\<open>Write\<close> fails, with nothing written.\<close>

definition brokenWriter :: writer where
  "brokenWriter = \<lparr>written = [], faults = [Some (0, ErrOther ''broken pipe'')]\<rparr>"

definition docsData :: schema where
  "docsData = \<lparr>Name = ''docs_data'', Type = ''table'',
     SQL = ''CREATE TABLE docs_data(id INTEGER PRIMARY KEY, block BLOB)''\<rparr>"

definition sqliteSequence :: schema where
  "sqliteSequence = \<lparr>Name = ''sqlite_sequence'', Type = ''table'',
     SQL = ''CREATE TABLE sqlite_sequence(name,seq)''\<rparr>"

definition users :: schema where
  "users = \<lparr>Name = ''users'', Type = ''table'',
     SQL = ''CREATE TABLE users(id INTEGER PRIMARY KEY AUTOINCREMENT, name TEXT)''\<rparr>"

definition usersView :: schema where
  "usersView = \<lparr>Name = ''users_v'', Type = ''view'',
     SQL = ''CREATE VIEW users_v AS SELECT name FROM users''\<rparr>"

definition usersIndex :: schema where
  "usersIndex = \<lparr>Name = ''users_name'', Type = ''index'',
     SQL = ''CREATE INDEX users_name ON users(name)''\<rparr>"

definition sampleDB :: DB where
  "sampleDB = catalogDB [docsData, sqliteSequence, users] [usersView, usersIndex]"

definition quotedTable :: schema where
  \<open>quotedTable = \<lparr>Name = ''a"b'', Type = ''table'', SQL = ''CREATE TABLE "a""b"(x)''\<rparr>\<close>

definition spacedIndex :: schema where
  \<open>spacedIndex = \<lparr>Name = ''my index'', Type = ''index'',
     SQL = ''CREATE INDEX "my index" ON "a""b"(x)''\<rparr>\<close>

definition everyOption :: sqlite3dumper where
  "everyOption = \<lparr>migration = True, dropIfExists = True, wrapWithTransaction = True\<rparr>"

definition dropping :: sqlite3dumper where
  "dropping = \<lparr>migration = False, dropIfExists = True, wrapWithTransaction = True\<rparr>"

definition unwrapped :: sqlite3dumper where
  "unwrapped = \<lparr>migration = False, dropIfExists = False, wrapWithTransaction = False\<rparr>"

definition droppingUnwrapped :: sqlite3dumper where
  "droppingUnwrapped = \<lparr>migration = False, dropIfExists = True, wrapWithTransaction = False\<rparr>"

text \<open>
  The handle of a database stored in UTF-16 (little endian) with two tables, one named
  with the fullwidth letter A (U+FF21; in the handle's UTF-8 strings the bytes
  EF BC A1) and one named \<^verbatim>\<open>a\<close>. The engine compares names in the stored encoding,
  where the fullwidth letter (bytes 21 FF) comes before \<^verbatim>\<open>a\<close> (bytes 61 00), so the
  table query with its \<^verbatim>\<open>ORDER BY "name"\<close> returns the rows in this order.
\<close>

definition fullwidthTable :: schema where
  "fullwidthTable = \<lparr>Name = [CHR 0xEF, CHR 0xBC, CHR 0xA1], Type = ''table'',
     SQL = ''CREATE TABLE '' @ [CHR 0xEF, CHR 0xBC, CHR 0xA1] @ ''(x)''\<rparr>"

definition latinTable :: schema where
  "latinTable = \<lparr>Name = ''a'', Type = ''table'', SQL = ''CREATE TABLE a(x)''\<rparr>"

definition utf16DB :: DB where
  "utf16DB = catalogDB [fullwidthTable, latinTable] []"

section \<open>Lemmas\<close>

subsection \<open>The sample database\<close>

lemma queries_differ: "otherSchemasQuery \<noteq> tableSchemasQuery"
  by (simp add: otherSchemasQuery_def tableSchemasQuery_def)

lemma scanRows_Inr: "scanRows (map Inr ss) e acc = (acc @ ss, e)"
  by (induction ss arbitrary: acc) simp_all

lemma getSchemas_catalogDB:
  "getSchemas (catalogDB tables others) tableSchemasQuery = (tables, None)"
  "getSchemas (catalogDB tables others) otherSchemasQuery = (others, None)"
  by (simp_all add: getSchemas_def catalogDB_def queries_differ scanRows_Inr)

subsection \<open>A stream that takes every write\<close>

lemma Write_reliable: "faults w = [] \<Longrightarrow> Write w p = (None, w\<lparr>written := written w @ [p]\<rparr>)"
  by (simp add: Write_def)

lemma beginStatements_eq:
  "beginStatements s3d = (if wrapWithTransaction s3d then [''BEGIN TRANSACTION;\<newline>''] else [])"
  by (simp add: beginStatements_def emptyWriter_def Write_def)

lemma commitStatements_eq:
  "commitStatements s3d = (if wrapWithTransaction s3d then [''COMMIT;\<newline>''] else [])"
  by (simp add: commitStatements_def emptyWriter_def Write_def)

lemma writeDropStatements_map_filter:
  "faults w = [] \<Longrightarrow>
   writeDropStatements w ss = (None, w\<lparr>written := written w @ List.map_filter dropStatement ss\<rparr>)"
proof (induction ss arbitrary: w)
  case Nil
  then show ?case by simp
next
  case (Cons s ss)
  show ?case
  proof (cases "dropStatement s")
    case None
    with Cons show ?thesis by simp
  next
    case (Some st)
    with Cons.prems Cons.IH [of "w\<lparr>written := written w @ [st]\<rparr>"] show ?thesis
      by (simp add: Write_reliable)
  qed
qed

lemma dropStatements_eq: "dropStatements ss = List.map_filter dropStatement ss"
  by (simp add: dropStatements_def emptyWriter_def writeDropStatements_map_filter)

lemma writeDropStatements_reliable:
  "faults w = [] \<Longrightarrow>
   writeDropStatements w ss = (None, w\<lparr>written := written w @ dropStatements ss\<rparr>)"
  by (simp add: dropStatements_eq writeDropStatements_map_filter)

lemma dumpTable_reliable:
  "faults w = [] \<Longrightarrow> dumpTable s3d w s = w\<lparr>written := written w @ tableStatements s3d [s]\<rparr>"
  by (simp add: tableStatements_def dumpTable_def emptyWriter_def Write_reliable)

lemma foldl_dumpTable_reliable:
  "faults w = [] \<Longrightarrow>
   foldl (dumpTable s3d) w ss =
     w\<lparr>written := written w @ concat (map (\<lambda>s. tableStatements s3d [s]) ss)\<rparr>"
proof (induction ss arbitrary: w)
  case Nil
  then show ?case by simp
next
  case (Cons s ss)
  from Cons.prems Cons.IH [of "w\<lparr>written := written w @ tableStatements s3d [s]\<rparr>"]
  show ?case by (simp add: dumpTable_reliable)
qed

lemma tableStatements_concat:
  "tableStatements s3d ss = concat (map (\<lambda>s. tableStatements s3d [s]) ss)"
proof -
  have "tableStatements s3d ss = written (foldl (dumpTable s3d) emptyWriter ss)"
    by (simp add: tableStatements_def)
  also have "\<dots> = concat (map (\<lambda>s. tableStatements s3d [s]) ss)"
    by (subst foldl_dumpTable_reliable) (simp_all add: emptyWriter_def)
  finally show ?thesis .
qed

lemma foldl_dumpOther_reliable:
  "faults w = [] \<Longrightarrow>
   foldl dumpOther w ss = w\<lparr>written := written w @ map (\<lambda>s. SQL s @ '';\<newline>'') ss\<rparr>"
proof (induction ss arbitrary: w)
  case Nil
  then show ?case by simp
next
  case (Cons s ss)
  from Cons.prems Cons.IH [of "w\<lparr>written := written w @ [SQL s @ '';\<newline>'']\<rparr>"]
  show ?case by (simp add: dumpOther_def Write_reliable)
qed

lemma otherStatements_eq: "otherStatements ss = map (\<lambda>s. SQL s @ '';\<newline>'') ss"
  by (simp add: otherStatements_def emptyWriter_def foldl_dumpOther_reliable)

text \<open>
  The run of \<^verbatim>\<open>dumpDB\<close> when both catalog queries succeed and every write is taken:
  no error, and the five phases one after the other.
\<close>

lemma dumpDB_reliable:
  assumes "faults out = []"
    and "getSchemas db tableSchemasQuery = (tables, None)"
    and "getSchemas db otherSchemasQuery = (others, None)"
  shows "dumpDB s3d db out =
     (None, out\<lparr>written := written out @ beginStatements s3d
        @ (if dropIfExists s3d then dropStatements (others @ tables) else [])
        @ tableStatements s3d tables @ otherStatements others @ commitStatements s3d\<rparr>)"
  using assms
  by (simp add: dumpDB_def Write_reliable writeDropStatements_reliable
      foldl_dumpTable_reliable foldl_dumpOther_reliable beginStatements_eq
      commitStatements_eq otherStatements_eq tableStatements_concat [of s3d tables])

subsection \<open>The statements of one catalog row\<close>

lemma tableStatements_single:
  \<open>tableStatements s3d [s] =
     (if Name s = ''sqlite_sequence'' then [''DELETE FROM "sqlite_sequence";\<newline>'']
      else if Name s = ''sqlite3_stat1'' then [''ANALYZE "sqlite_master";\<newline>'']
      else if HasPrefix (Name s) ''sqlite_'' \<or> hasFTS5Suffix (Name s) then []
      else if migration s3d then [] else [SQL s @ '';\<newline>''])\<close>
  by (simp add: tableStatements_def dumpTable_def emptyWriter_def Write_def
      hasFTS5Suffix_def fts5Suffixes_def)

lemma tableStatements_append:
  "tableStatements s3d (xs @ ys) = tableStatements s3d xs @ tableStatements s3d ys"
  by (simp add: tableStatements_concat [of s3d "xs @ ys"] tableStatements_concat [of s3d xs]
      tableStatements_concat [of s3d ys])

lemma tableStatements_Cons:
  "tableStatements s3d (x # xs) = tableStatements s3d [x] @ tableStatements s3d xs"
  using tableStatements_append [of s3d "[x]" xs] by simp

lemma tableStatements_Nil: "tableStatements s3d [] = []"
  by (simp add: tableStatements_def emptyWriter_def)

lemma dropStatements_append:
  "dropStatements (xs @ ys) = dropStatements xs @ dropStatements ys"
  by (simp add: dropStatements_eq map_filter_def)

lemma dropStatements_Cons:
  "dropStatements (x # xs) =
     (case dropStatement x of None \<Rightarrow> [] | Some st \<Rightarrow> [st]) @ dropStatements xs"
  by (simp add: dropStatements_eq split: option.split)

lemma dropStatements_Nil: "dropStatements [] = []"
  by (simp add: dropStatements_eq)

lemma fts5_not_special:
  "hasFTS5Suffix name \<Longrightarrow> name \<noteq> ''sqlite_sequence'' \<and> name \<noteq> ''sqlite3_stat1''"
  by (auto simp add: hasFTS5Suffix_def fts5Suffixes_def HasSuffix_def)

lemma tableStatements_fts5: "hasFTS5Suffix (Name s) \<Longrightarrow> tableStatements s3d [s] = []"
  using fts5_not_special [of "Name s"] by (simp add: tableStatements_single)

lemma tableStatements_at_most_one: "length (tableStatements s3d [s]) \<le> 1"
  by (simp add: tableStatements_single)

lemma concat_map_nonempty:
  "concat (map f (filter (\<lambda>x. f x \<noteq> []) xs)) = concat (map f xs)"
  by (induction xs) simp_all

lemma tableStatements_emitting:
  "tableStatements s3d tables =
     concat (map (\<lambda>s. tableStatements s3d [s]) (emittingTables s3d tables))"
  unfolding emittingTables_def concat_map_nonempty
  by (rule tableStatements_concat)

lemma dropStatements_others:
  "list_all (\<lambda>s. Type s = ''index'' \<or> Type s = ''trigger'' \<or> Type s = ''view'') others \<Longrightarrow>
   dropStatements others =
     map (\<lambda>s. ''DROP INDEX IF EXISTS '' @ Name s @ '';\<newline>'')
       (filter (\<lambda>s. Type s = ''index'') others)"
  by (induction others) (auto simp add: dropStatements_Nil dropStatements_Cons dropStatement_def)

lemma dropStatements_tables:
  "list_all (\<lambda>s. Type s = ''table'') tables \<Longrightarrow>
   dropStatements tables =
     map (\<lambda>s. ''DROP TABLE IF EXISTS '' @ Name s @ '';\<newline>'')
       (filter (\<lambda>s. \<not> HasPrefix (Name s) ''sqlite_'') tables)"
  by (induction tables) (auto simp add: dropStatements_Nil dropStatements_Cons dropStatement_def)

subsection \<open>The sample database, evaluated\<close>

lemma sample_getSchemas:
  "getSchemas sampleDB tableSchemasQuery = ([docsData, sqliteSequence, users], None)"
  "getSchemas sampleDB otherSchemasQuery = ([usersView, usersIndex], None)"
  by (simp_all add: sampleDB_def getSchemas_catalogDB)

lemma sample_faults: "faults emptyWriter = []" "written emptyWriter = []"
  by (simp_all add: emptyWriter_def)

lemma sample_Names:
  "Name docsData = ''docs_data''" "Name sqliteSequence = ''sqlite_sequence''"
  "Name users = ''users''" "Name usersView = ''users_v''" "Name usersIndex = ''users_name''"
  by (simp_all add: docsData_def sqliteSequence_def users_def usersView_def usersIndex_def)

lemma sample_Types:
  "Type docsData = ''table''" "Type sqliteSequence = ''table''" "Type users = ''table''"
  "Type usersView = ''view''" "Type usersIndex = ''index''"
  by (simp_all add: docsData_def sqliteSequence_def users_def usersView_def usersIndex_def)

lemma sample_hasFTS5Suffix: "hasFTS5Suffix (Name docsData)"
  by (simp add: hasFTS5Suffix_def fts5Suffixes_def HasSuffix_def docsData_def)

lemma sample_tableStatements:
  \<open>tableStatements s3d [docsData] = []\<close>
  \<open>tableStatements s3d [sqliteSequence] = [''DELETE FROM "sqlite_sequence";\<newline>'']\<close>
  \<open>tableStatements s3d [users] =
     (if migration s3d then []
      else [''CREATE TABLE users(id INTEGER PRIMARY KEY AUTOINCREMENT, name TEXT);\<newline>''])\<close>
  by (simp_all add: tableStatements_single hasFTS5Suffix_def fts5Suffixes_def HasSuffix_def
      HasPrefix_def docsData_def sqliteSequence_def users_def)

lemma sample_tableStatements_all:
  \<open>tableStatements s3d [docsData, sqliteSequence, users] =
     ''DELETE FROM "sqlite_sequence";\<newline>''
     # (if migration s3d then []
        else [''CREATE TABLE users(id INTEGER PRIMARY KEY AUTOINCREMENT, name TEXT);\<newline>''])\<close>
  by (simp add: tableStatements_concat [of s3d "[docsData, sqliteSequence, users]"]
      sample_tableStatements)

lemma sample_dropStatements:
  "dropStatements [usersView, usersIndex] = [''DROP INDEX IF EXISTS users_name;\<newline>'']"
  "dropStatements [docsData] = [''DROP TABLE IF EXISTS docs_data;\<newline>'']"
  "dropStatements [sqliteSequence] = []"
  "dropStatements [users] = [''DROP TABLE IF EXISTS users;\<newline>'']"
  by (simp_all add: dropStatements_eq dropStatement_def HasPrefix_def
      docsData_def sqliteSequence_def users_def usersView_def usersIndex_def)

lemma sample_otherStatements:
  "otherStatements [usersView, usersIndex] =
     [''CREATE VIEW users_v AS SELECT name FROM users;\<newline>'',
      ''CREATE INDEX users_name ON users(name);\<newline>'']"
  by (simp add: otherStatements_eq usersView_def usersIndex_def)

lemma sample_SQLs:
  "SQL usersView = ''CREATE VIEW users_v AS SELECT name FROM users''"
  "SQL usersIndex = ''CREATE INDEX users_name ON users(name)''"
  by (simp_all add: usersView_def usersIndex_def)

section \<open>The claims\<close>

subsection \<open>C1: a database source that does not exist\<close>

text \<open>
  Claim C1 as stated, "calling Dump with a database source path that does not exist
  returns no error and writes nothing", fails on its first half. With no file on the
  filesystem and an empty stream, \<open>Dump\<close> returns an error.
\<close>

theorem Dump_missing_source_counterexample:
  "IsNotExist (Stat noFiles ''missing.db'')
   \<and> fst (Dump noFiles ''missing.db'' emptyWriter []) = Some (ErrNotExist ''missing.db'')"
  by (simp add: noFiles_def IsNotExist_def Dump_def dump_def)

text \<open>
  Claim C1, amended: for every output writer and every configuration, calling
  \<open>Dump\<close> with a path that \<^verbatim>\<open>os.Stat\<close> reports as not existing returns that
  not-exist error (as the function's comment says: "Returns an error if the database
  doesn't exist") and writes nothing to the output stream, not even the transaction
  envelope: the stream is left as it was.
\<close>

theorem Dump_missing_source:
  assumes "IsNotExist (Stat os dbName)"
  shows "Dump os dbName out opts = (Stat os dbName, out) \<and> Stat os dbName \<noteq> None"
  using assms by (auto simp add: Dump_def dump_def IsNotExist_def split: option.splits)

theorem Dump_missing_source_witness:
  "IsNotExist (Stat noFiles ''missing.db'')
   \<and> Dump noFiles ''missing.db'' brokenWriter [WithMigration]
       = (Some (ErrNotExist ''missing.db''), brokenWriter)"
proof -
  have h: "IsNotExist (Stat noFiles ''missing.db'')"
    by (simp add: noFiles_def IsNotExist_def)
  from Dump_missing_source [OF h, of brokenWriter "[WithMigration]"] h show ?thesis
    by (simp add: noFiles_def)
qed

subsection \<open>C2: write failures\<close>

text \<open>
  Claim C2 says that a failed write to the output stream, in any phase, ends the dump
  and is returned. The code at an input where it does not: on an empty catalog, with
  the default configuration and a stream whose first \<^verbatim>\<open>Write\<close> fails, the write of
  the \<^verbatim>\<open>BEGIN TRANSACTION;\<close> line fails, and \<open>dumpDB\<close> goes on to write
  \<^verbatim>\<open>COMMIT;\<close> and returns no error.
\<close>

theorem dumpDB_ignores_failed_write:
  "fst (Write brokenWriter ''BEGIN TRANSACTION;\<newline>'') = Some (ErrOther ''broken pipe'')
   \<and> dumpDB (newSqlite3Dumper []) (catalogDB [] []) brokenWriter
       = (None, \<lparr>written = [[], ''COMMIT;\<newline>''], faults = []\<rparr>)"
  by (simp add: brokenWriter_def Write_def dumpDB_def newSqlite3Dumper_def getSchemas_catalogDB)

subsection \<open>C3: names in DROP statements\<close>

text \<open>
  Claim C3 says that the name in a DROP statement has its double quotes doubled and is
  wrapped in double quotes. The code at an input where it is not: for a table named
  \<^verbatim>\<open>a"b\<close> and an index named \<^verbatim>\<open>my index\<close>, \<open>writeDropStatements\<close> writes the
  names as they are.
\<close>

theorem writeDropStatements_raw_names:
  \<open>writeDropStatements emptyWriter [quotedTable, spacedIndex]
     = (None, \<lparr>written = [''DROP TABLE IF EXISTS a"b;\<newline>'',
                            ''DROP INDEX IF EXISTS my index;\<newline>''],
               faults = []\<rparr>)\<close>
  by (simp add: emptyWriter_def Write_def dropStatement_def HasPrefix_def
      quotedTable_def spacedIndex_def)

subsection \<open>C4: auxiliary tables of a full-text index\<close>

text \<open>
  Claim C4 as stated, "for every configuration (including drop-if-exists enabled) the
  dump output contains zero statements mentioning that table: no CREATE, no INSERT,
  and no DROP", fails with drop-if-exists enabled: the table \<^verbatim>\<open>docs_data\<close> gets a
  DROP statement.
\<close>

theorem fts5_table_dropped_counterexample:
  "hasFTS5Suffix (Name docsData)
   \<and> dumpDB dropping (catalogDB [docsData] []) emptyWriter
       = (None, \<lparr>written = [''BEGIN TRANSACTION;\<newline>'',
                              ''DROP TABLE IF EXISTS docs_data;\<newline>'',
                              ''COMMIT;\<newline>''],
                 faults = []\<rparr>)"
  by (simp add: hasFTS5Suffix_def fts5Suffixes_def HasSuffix_def HasPrefix_def dumpDB_def
      getSchemas_catalogDB emptyWriter_def Write_def dropStatement_def dumpTable_def
      docsData_def dropping_def)

text \<open>
  Claim C4, amended: for every table whose catalog name ends with one of the
  full-text-search auxiliary suffixes (_segments, _segdir, _stat, _idx, _docsize,
  _config, _data, _content), and for every configuration, the table phase writes no
  statement for that table (no CREATE, no INSERT); with drop-if-exists disabled the
  dump writes nothing for it at all; with drop-if-exists enabled the drop phase writes
  \<^verbatim>\<open>DROP TABLE IF EXISTS <name>;\<close> for it, unless its name starts with \<^verbatim>\<open>sqlite_\<close>.
  Stated for a dump whose catalog queries succeed and whose writes are all taken; the
  table is the row \<open>s\<close> of the table catalog, between the rows \<open>pre\<close> and \<open>post\<close>.
\<close>

theorem fts5_table_statements:
  assumes "faults out = []"
    and "getSchemas db tableSchemasQuery = (pre @ s # post, None)"
    and "getSchemas db otherSchemasQuery = (others, None)"
    and "hasFTS5Suffix (Name s)" and "Type s = ''table''"
  shows "written (snd (dumpDB s3d db out)) =
     written out @ beginStatements s3d
       @ (if dropIfExists s3d
          then dropStatements (others @ pre)
            @ (if HasPrefix (Name s) ''sqlite_'' then []
               else [''DROP TABLE IF EXISTS '' @ Name s @ '';\<newline>''])
            @ dropStatements post
          else [])
       @ tableStatements s3d pre @ tableStatements s3d post
       @ otherStatements others @ commitStatements s3d"
proof -
  have t: "tableStatements s3d (pre @ s # post) = tableStatements s3d pre @ tableStatements s3d post"
    using tableStatements_fts5 [OF assms(4), of s3d]
    by (simp add: tableStatements_append tableStatements_Cons [of s3d s post])
  have d: "dropStatements (others @ pre @ s # post) =
      dropStatements (others @ pre)
        @ (if HasPrefix (Name s) ''sqlite_'' then []
           else [''DROP TABLE IF EXISTS '' @ Name s @ '';\<newline>''])
        @ dropStatements post"
    using assms(5)
    by (simp add: dropStatements_append dropStatements_Cons [of s post] dropStatement_def)
  show ?thesis
    by (simp add: dumpDB_reliable [OF assms(1-3)] t d)
qed

theorem fts5_table_statements_witness:
  \<open>hasFTS5Suffix (Name docsData)
   \<and> written (snd (dumpDB dropping sampleDB emptyWriter))
       = [''BEGIN TRANSACTION;\<newline>'',
          ''DROP INDEX IF EXISTS users_name;\<newline>'',
          ''DROP TABLE IF EXISTS docs_data;\<newline>'',
          ''DROP TABLE IF EXISTS users;\<newline>'',
          ''DELETE FROM "sqlite_sequence";\<newline>'',
          ''CREATE TABLE users(id INTEGER PRIMARY KEY AUTOINCREMENT, name TEXT);\<newline>'',
          ''CREATE VIEW users_v AS SELECT name FROM users;\<newline>'',
          ''CREATE INDEX users_name ON users(name);\<newline>'',
          ''COMMIT;\<newline>'']\<close>
proof -
  have q: "getSchemas sampleDB tableSchemasQuery = ([] @ docsData # [sqliteSequence, users], None)"
    by (simp add: sample_getSchemas)
  have ts: \<open>tableStatements dropping [sqliteSequence, users] =
      [''DELETE FROM "sqlite_sequence";\<newline>'',
       ''CREATE TABLE users(id INTEGER PRIMARY KEY AUTOINCREMENT, name TEXT);\<newline>'']\<close>
    by (simp add: tableStatements_concat [of _ "[sqliteSequence, users]"]
        sample_tableStatements dropping_def)
  have ds: "dropStatements [sqliteSequence, users] = [''DROP TABLE IF EXISTS users;\<newline>'']"
    using dropStatements_append [of "[sqliteSequence]" "[users]"]
    by (simp add: sample_dropStatements)
  have cfg: "dropIfExists dropping" "wrapWithTransaction dropping"
    by (simp_all add: dropping_def)
  from fts5_table_statements [OF sample_faults(1) q sample_getSchemas(2)
      sample_hasFTS5Suffix sample_Types(1), of dropping] sample_hasFTS5Suffix
  show ?thesis
    by (simp add: sample_faults beginStatements_eq commitStatements_eq
        sample_otherStatements sample_dropStatements tableStatements_Nil ts ds cfg
        sample_Names HasPrefix_def)
qed

subsection \<open>C5: the order of the statements\<close>

text \<open>
  Claim C5 as stated, "for every database, the emitted table-schema statements appear
  in strictly ascending lexicographic (case-sensitive) order of table name", fails:
  \<open>dumpDB\<close> does not sort, it writes the table statements in the order in which the
  engine returns the rows. For the database stored in UTF-16 the engine returns the
  table named with the fullwidth letter A before the table named \<^verbatim>\<open>a\<close>, and the two
  CREATE statements are written in that order, which is descending in the
  lexicographic order of the names.
\<close>

theorem dumpDB_statement_order_counterexample:
  "getSchemas utf16DB tableSchemasQuery = ([fullwidthTable, latinTable], None)
   \<and> written (snd (dumpDB (newSqlite3Dumper []) utf16DB emptyWriter))
       = [''BEGIN TRANSACTION;\<newline>'',
          ''CREATE TABLE '' @ [CHR 0xEF, CHR 0xBC, CHR 0xA1] @ ''(x);\<newline>'',
          ''CREATE TABLE a(x);\<newline>'',
          ''COMMIT;\<newline>'']
   \<and> emittingTables (newSqlite3Dumper []) [fullwidthTable, latinTable] = [fullwidthTable, latinTable]
   \<and> Name latinTable < Name fullwidthTable
   \<and> \<not> sorted_wrt (<) (map Name (emittingTables (newSqlite3Dumper []) [fullwidthTable, latinTable]))"
proof -
  have q: "getSchemas utf16DB tableSchemasQuery = ([fullwidthTable, latinTable], None)"
    by (simp add: utf16DB_def getSchemas_catalogDB)
  have w: "written (snd (dumpDB (newSqlite3Dumper []) utf16DB emptyWriter))
       = [''BEGIN TRANSACTION;\<newline>'',
          ''CREATE TABLE '' @ [CHR 0xEF, CHR 0xBC, CHR 0xA1] @ ''(x);\<newline>'',
          ''CREATE TABLE a(x);\<newline>'',
          ''COMMIT;\<newline>'']"
    by (simp add: utf16DB_def dumpDB_def getSchemas_catalogDB newSqlite3Dumper_def
        emptyWriter_def Write_def dumpTable_def HasPrefix_def HasSuffix_def
        fullwidthTable_def latinTable_def)
  have e: "emittingTables (newSqlite3Dumper []) [fullwidthTable, latinTable]
      = [fullwidthTable, latinTable]"
    by (simp add: emittingTables_def tableStatements_single newSqlite3Dumper_def
        hasFTS5Suffix_def fts5Suffixes_def HasPrefix_def HasSuffix_def
        fullwidthTable_def latinTable_def)
  have l: "Name latinTable < Name fullwidthTable"
    by (simp add: fullwidthTable_def latinTable_def less_char_def)
  have "\<not> Name fullwidthTable < Name latinTable"
    using l by (simp add: not_less less_imp_le)
  then have n: "\<not> sorted_wrt (<) (map Name (emittingTables (newSqlite3Dumper []) [fullwidthTable, latinTable]))"
    unfolding e by simp
  from q w e l n show ?thesis by simp
qed

text \<open>
  Claim C5, amended: for every database, the emitted table-schema statements appear in
  the order in which the engine returned the table rows for the table query (which asks
  for \<^verbatim>\<open>ORDER BY "name"\<close>; the code itself does not sort), one statement for each table
  that gets one, so they are in strictly ascending lexicographic (case-sensitive) order
  of table name whenever the returned rows are; every emitted table CREATE statement
  precedes every other-schema (index/trigger/view) statement, and the other-schema
  statements appear in the order the catalog returned them.

  Stated for a dump whose catalog queries succeed, with the rows \<open>tables\<close> and
  \<open>others\<close> in the order returned, and whose writes are all taken. The tables that get a
  statement are \<open>emittingTables s3d tables\<close>, the rows of \<open>tables\<close> with a statement,
  in the order of \<open>tables\<close>.
\<close>

theorem dumpDB_statement_order:
  assumes "faults out = []"
    and "getSchemas db tableSchemasQuery = (tables, None)"
    and "getSchemas db otherSchemasQuery = (others, None)"
  shows "written (snd (dumpDB s3d db out)) =
     written out @ beginStatements s3d
       @ (if dropIfExists s3d then dropStatements (others @ tables) else [])
       @ concat (map (\<lambda>s. tableStatements s3d [s]) (emittingTables s3d tables))
       @ map (\<lambda>s. SQL s @ '';\<newline>'') others
       @ commitStatements s3d
     \<and> emittingTables s3d tables = filter (\<lambda>s. tableStatements s3d [s] \<noteq> []) tables
     \<and> list_all (\<lambda>s. length (tableStatements s3d [s]) = 1) (emittingTables s3d tables)
     \<and> (sorted_wrt (<) (map Name tables) \<longrightarrow>
          sorted_wrt (<) (map Name (emittingTables s3d tables)))"
proof -
  have one: "list_all (\<lambda>s. length (tableStatements s3d [s]) = 1) (emittingTables s3d tables)"
    using tableStatements_at_most_one [of s3d]
    by (auto simp add: emittingTables_def list_all_iff le_Suc_eq)
  have ordered: "sorted_wrt (<) (map Name (emittingTables s3d tables))"
    if "sorted_wrt (<) (map Name tables)"
    using that by (simp add: emittingTables_def sorted_wrt_map sorted_wrt_filter)
  have "written (snd (dumpDB s3d db out)) =
     written out @ beginStatements s3d
       @ (if dropIfExists s3d then dropStatements (others @ tables) else [])
       @ concat (map (\<lambda>s. tableStatements s3d [s]) (emittingTables s3d tables))
       @ map (\<lambda>s. SQL s @ '';\<newline>'') others
       @ commitStatements s3d"
    using tableStatements_emitting [of s3d tables]
    by (simp add: dumpDB_reliable [OF assms(1-3)] otherStatements_eq)
  with one ordered show ?thesis by (simp add: emittingTables_def)
qed

theorem dumpDB_statement_order_witness:
  \<open>sorted_wrt (<) (map Name [docsData, sqliteSequence, users])
   \<and> emittingTables (newSqlite3Dumper []) [docsData, sqliteSequence, users] = [sqliteSequence, users]
   \<and> sorted_wrt (<) (map Name (emittingTables (newSqlite3Dumper []) [docsData, sqliteSequence, users]))
   \<and> written (snd (dumpDB (newSqlite3Dumper []) sampleDB emptyWriter))
       = [''BEGIN TRANSACTION;\<newline>'',
          ''DELETE FROM "sqlite_sequence";\<newline>'',
          ''CREATE TABLE users(id INTEGER PRIMARY KEY AUTOINCREMENT, name TEXT);\<newline>'',
          ''CREATE VIEW users_v AS SELECT name FROM users;\<newline>'',
          ''CREATE INDEX users_name ON users(name);\<newline>'',
          ''COMMIT;\<newline>'']\<close>
proof -
  have ordered: "sorted_wrt (<) (map Name [docsData, sqliteSequence, users])"
    by (simp add: sample_Names)
  have cfg: "newSqlite3Dumper [] = \<lparr>migration = False, dropIfExists = False, wrapWithTransaction = True\<rparr>"
    by (simp add: newSqlite3Dumper_def)
  have em: "emittingTables (newSqlite3Dumper []) [docsData, sqliteSequence, users] = [sqliteSequence, users]"
    by (simp add: emittingTables_def sample_tableStatements cfg)
  note inst = dumpDB_statement_order [OF sample_faults(1) sample_getSchemas, of "newSqlite3Dumper []"]
  from inst ordered
  have so: "sorted_wrt (<) (map Name (emittingTables (newSqlite3Dumper []) [docsData, sqliteSequence, users]))"
    by blast
  from inst
  have "written (snd (dumpDB (newSqlite3Dumper []) sampleDB emptyWriter)) =
     written emptyWriter @ beginStatements (newSqlite3Dumper [])
       @ (if dropIfExists (newSqlite3Dumper []) then dropStatements ([usersView, usersIndex] @ [docsData, sqliteSequence, users]) else [])
       @ concat (map (\<lambda>s. tableStatements (newSqlite3Dumper []) [s]) (emittingTables (newSqlite3Dumper []) [docsData, sqliteSequence, users]))
       @ map (\<lambda>s. SQL s @ '';\<newline>'') [usersView, usersIndex]
       @ commitStatements (newSqlite3Dumper [])"
    by (rule conjunct1)
  then have \<open>written (snd (dumpDB (newSqlite3Dumper []) sampleDB emptyWriter))
       = [''BEGIN TRANSACTION;\<newline>'',
          ''DELETE FROM "sqlite_sequence";\<newline>'',
          ''CREATE TABLE users(id INTEGER PRIMARY KEY AUTOINCREMENT, name TEXT);\<newline>'',
          ''CREATE VIEW users_v AS SELECT name FROM users;\<newline>'',
          ''CREATE INDEX users_name ON users(name);\<newline>'',
          ''COMMIT;\<newline>'']\<close>
    unfolding em
    by (simp add: cfg sample_faults beginStatements_eq commitStatements_eq
        sample_tableStatements sample_SQLs)
  with ordered em so show ?thesis by simp
qed

subsection \<open>C6: the table sqlite_sequence\<close>

text \<open>
  Claim C6: for every database whose table catalog contains an entry named
  sqlite_sequence, and every configuration, the dump output never contains a CREATE
  statement for sqlite_sequence and instead contains exactly one statement
  \<^verbatim>\<open>DELETE FROM "sqlite_sequence";\<close> and the drop phase never emits a DROP statement
  for it (its name carries the reserved sqlite_ prefix).

  The entry is the row \<open>s\<close> of the table catalog, of type \<^verbatim>\<open>table\<close> as the table
  query selects, between the rows \<open>pre\<close> and \<open>post\<close>. In the output, the drop phase
  is the drop statements of the rows before and after it, with nothing for \<open>s\<close>, and
  the table phase has the one DELETE statement at the place of \<open>s\<close>, whatever the
  definition of \<open>s\<close> and whatever the configuration.
\<close>

theorem sqlite_sequence_statements:
  assumes "faults out = []"
    and "getSchemas db tableSchemasQuery = (pre @ s # post, None)"
    and "getSchemas db otherSchemasQuery = (others, None)"
    and "Name s = ''sqlite_sequence''" and "Type s = ''table''"
  shows \<open>written (snd (dumpDB s3d db out)) =
     written out @ beginStatements s3d
       @ (if dropIfExists s3d then dropStatements (others @ pre) @ dropStatements post else [])
       @ tableStatements s3d pre @ [''DELETE FROM "sqlite_sequence";\<newline>'']
       @ tableStatements s3d post
       @ otherStatements others @ commitStatements s3d\<close>
proof -
  have t: \<open>tableStatements s3d (pre @ s # post) =
      tableStatements s3d pre @ [''DELETE FROM "sqlite_sequence";\<newline>''] @ tableStatements s3d post\<close>
    using assms(4)
    by (simp add: tableStatements_append tableStatements_Cons [of s3d s post] tableStatements_single)
  have d: "dropStatements (others @ pre @ s # post) = dropStatements (others @ pre) @ dropStatements post"
    using assms(4,5)
    by (simp add: dropStatements_append dropStatements_Cons [of s post] dropStatement_def HasPrefix_def)
  show ?thesis
    by (simp add: dumpDB_reliable [OF assms(1-3)] t d)
qed

theorem sqlite_sequence_statements_witness:
  \<open>Name sqliteSequence = ''sqlite_sequence'' \<and> Type sqliteSequence = ''table''
   \<and> written (snd (dumpDB everyOption sampleDB emptyWriter))
       = [''BEGIN TRANSACTION;\<newline>'',
          ''DROP INDEX IF EXISTS users_name;\<newline>'',
          ''DROP TABLE IF EXISTS docs_data;\<newline>'',
          ''DROP TABLE IF EXISTS users;\<newline>'',
          ''DELETE FROM "sqlite_sequence";\<newline>'',
          ''CREATE VIEW users_v AS SELECT name FROM users;\<newline>'',
          ''CREATE INDEX users_name ON users(name);\<newline>'',
          ''COMMIT;\<newline>'']\<close>
proof -
  have q: "getSchemas sampleDB tableSchemasQuery = ([docsData] @ sqliteSequence # [users], None)"
    by (simp add: sample_getSchemas)
  have ds: "dropStatements [usersView, usersIndex, docsData] =
      [''DROP INDEX IF EXISTS users_name;\<newline>'', ''DROP TABLE IF EXISTS docs_data;\<newline>'']"
    using dropStatements_append [of "[usersView, usersIndex]" "[docsData]"]
    by (simp add: sample_dropStatements)
  have cfg: "dropIfExists everyOption" "wrapWithTransaction everyOption" "migration everyOption"
    by (simp_all add: everyOption_def)
  from sqlite_sequence_statements [OF sample_faults(1) q sample_getSchemas(2)
      sample_Names(2) sample_Types(2), of everyOption]
  have \<open>written (snd (dumpDB everyOption sampleDB emptyWriter))
       = [''BEGIN TRANSACTION;\<newline>'',
          ''DROP INDEX IF EXISTS users_name;\<newline>'',
          ''DROP TABLE IF EXISTS docs_data;\<newline>'',
          ''DROP TABLE IF EXISTS users;\<newline>'',
          ''DELETE FROM "sqlite_sequence";\<newline>'',
          ''CREATE VIEW users_v AS SELECT name FROM users;\<newline>'',
          ''CREATE INDEX users_name ON users(name);\<newline>'',
          ''COMMIT;\<newline>'']\<close>
    by (simp add: sample_faults beginStatements_eq commitStatements_eq sample_otherStatements
        sample_dropStatements sample_tableStatements ds cfg)
  with sample_Names(2) sample_Types(2) show ?thesis by simp
qed

subsection \<open>C7: the drop phase\<close>

text \<open>
  Claim C7: when drop-if-exists is enabled, every non-system table (name not starting
  with the reserved sqlite_ prefix) and every index in the catalog produces exactly one
  DROP ... IF EXISTS statement, all drop statements precede every CREATE statement,
  drops for indexes/triggers/views precede drops for tables, and triggers and views
  themselves produce no DROP statement.

  The catalog is what the two queries return: rows of type \<^verbatim>\<open>table\<close> for the first,
  rows of type \<^verbatim>\<open>index\<close>, \<^verbatim>\<open>trigger\<close> or \<^verbatim>\<open>view\<close> for the second, as their
  WHERE clauses select. The drop phase is then one DROP INDEX statement for each index
  row, in the order of the rows, followed by one DROP TABLE statement for each table row
  whose name does not start with \<^verbatim>\<open>sqlite_\<close>, and it stands before the table phase
  and the other-schema phase.
\<close>

theorem dumpDB_drop_phase:
  assumes "faults out = []"
    and "getSchemas db tableSchemasQuery = (tables, None)"
    and "getSchemas db otherSchemasQuery = (others, None)"
    and "list_all (\<lambda>s. Type s = ''table'') tables"
    and "list_all (\<lambda>s. Type s = ''index'' \<or> Type s = ''trigger'' \<or> Type s = ''view'') others"
    and "dropIfExists s3d"
  shows "written (snd (dumpDB s3d db out)) =
     written out @ beginStatements s3d
       @ map (\<lambda>s. ''DROP INDEX IF EXISTS '' @ Name s @ '';\<newline>'')
           (filter (\<lambda>s. Type s = ''index'') others)
       @ map (\<lambda>s. ''DROP TABLE IF EXISTS '' @ Name s @ '';\<newline>'')
           (filter (\<lambda>s. \<not> HasPrefix (Name s) ''sqlite_'') tables)
       @ tableStatements s3d tables @ otherStatements others @ commitStatements s3d"
  using assms(6)
  by (simp add: dumpDB_reliable [OF assms(1-3)] dropStatements_append
      dropStatements_others [OF assms(5)] dropStatements_tables [OF assms(4)])

theorem dumpDB_drop_phase_witness:
  \<open>dropIfExists droppingUnwrapped
   \<and> written (snd (dumpDB droppingUnwrapped sampleDB emptyWriter))
       = [''DROP INDEX IF EXISTS users_name;\<newline>'',
          ''DROP TABLE IF EXISTS docs_data;\<newline>'',
          ''DROP TABLE IF EXISTS users;\<newline>'',
          ''DELETE FROM "sqlite_sequence";\<newline>'',
          ''CREATE TABLE users(id INTEGER PRIMARY KEY AUTOINCREMENT, name TEXT);\<newline>'',
          ''CREATE VIEW users_v AS SELECT name FROM users;\<newline>'',
          ''CREATE INDEX users_name ON users(name);\<newline>'']\<close>
proof -
  have tt: "list_all (\<lambda>s. Type s = ''table'') [docsData, sqliteSequence, users]"
    by (simp add: sample_Types)
  have ot: "list_all (\<lambda>s. Type s = ''index'' \<or> Type s = ''trigger'' \<or> Type s = ''view'')
      [usersView, usersIndex]"
    by (simp add: sample_Types)
  have cfg: "dropIfExists droppingUnwrapped" "\<not> wrapWithTransaction droppingUnwrapped"
    "\<not> migration droppingUnwrapped"
    by (simp_all add: droppingUnwrapped_def)
  have sys: "\<not> HasPrefix (Name docsData) ''sqlite_''" "HasPrefix (Name sqliteSequence) ''sqlite_''"
    "\<not> HasPrefix (Name users) ''sqlite_''"
    by (simp_all add: HasPrefix_def sample_Names)
  from dumpDB_drop_phase [OF sample_faults(1) sample_getSchemas tt ot cfg(1)]
  have \<open>written (snd (dumpDB droppingUnwrapped sampleDB emptyWriter))
       = [''DROP INDEX IF EXISTS users_name;\<newline>'',
          ''DROP TABLE IF EXISTS docs_data;\<newline>'',
          ''DROP TABLE IF EXISTS users;\<newline>'',
          ''DELETE FROM "sqlite_sequence";\<newline>'',
          ''CREATE TABLE users(id INTEGER PRIMARY KEY AUTOINCREMENT, name TEXT);\<newline>'',
          ''CREATE VIEW users_v AS SELECT name FROM users;\<newline>'',
          ''CREATE INDEX users_name ON users(name);\<newline>'']\<close>
    by (simp add: sample_faults beginStatements_eq commitStatements_eq sample_otherStatements
        sample_tableStatements_all sample_Types sys cfg)
      (simp add: sample_Names)
  with cfg(1) show ?thesis by simp
qed

subsection \<open>C8: a database without schema objects\<close>

text \<open>
  Claim C8: for every database whose catalog contains no tables and no other schema
  objects, dumping with the default configuration (transaction wrapping on, no drops,
  full mode) produces output that is exactly \<^verbatim>\<open>BEGIN TRANSACTION;\<close>, newline,
  \<^verbatim>\<open>COMMIT;\<close>, newline, i.e. only the transaction envelope and no object statements;
  with transaction wrapping disabled the output is empty.

  Both catalog queries return no row. What the dump adds to the stream is stated for
  a stream in any state that takes every write; with wrapping disabled the stream is
  left as it was, in every configuration.
\<close>

theorem dumpDB_empty_catalog:
  assumes "db tableSchemasQuery = QueryRows [] None"
    and "db otherSchemasQuery = QueryRows [] None"
    and "faults out = []"
  shows "newSqlite3Dumper [] = \<lparr>migration = False, dropIfExists = False, wrapWithTransaction = True\<rparr>
     \<and> fst (DumpDB db out []) = None
     \<and> contents (snd (DumpDB db out [])) = contents out @ ''BEGIN TRANSACTION;\<newline>COMMIT;\<newline>''
     \<and> (\<not> wrapWithTransaction s3d \<longrightarrow> dumpDB s3d db out = (None, out))"
proof -
  have t: "getSchemas db tableSchemasQuery = ([], None)"
    and o: "getSchemas db otherSchemasQuery = ([], None)"
    using assms(1,2) by (simp_all add: getSchemas_def)
  show ?thesis
    by (simp add: DumpDB_def dumpDB_reliable [OF assms(3) t o] newSqlite3Dumper_def
        beginStatements_eq commitStatements_eq dropStatements_Nil tableStatements_Nil
        otherStatements_eq contents_def)
qed

theorem dumpDB_empty_catalog_witness:
  "catalogDB [] [] tableSchemasQuery = QueryRows [] None
   \<and> catalogDB [] [] otherSchemasQuery = QueryRows [] None
   \<and> DumpDB (catalogDB [] []) emptyWriter [] =
       (None, \<lparr>written = [''BEGIN TRANSACTION;\<newline>'', ''COMMIT;\<newline>''], faults = []\<rparr>)
   \<and> contents (snd (DumpDB (catalogDB [] []) emptyWriter [])) = ''BEGIN TRANSACTION;\<newline>COMMIT;\<newline>''
   \<and> contents (snd (dumpDB unwrapped (catalogDB [] []) emptyWriter)) = []"
proof -
  have t: "catalogDB [] [] tableSchemasQuery = QueryRows [] None"
    and o: "catalogDB [] [] otherSchemasQuery = QueryRows [] None"
    by (simp_all add: catalogDB_def queries_differ)
  have w: "\<not> wrapWithTransaction unwrapped"
    by (simp add: unwrapped_def)
  have e: "contents emptyWriter = []"
    by (simp add: contents_def emptyWriter_def)
  from dumpDB_empty_catalog [OF t o sample_faults(1), of unwrapped] w
  have "fst (DumpDB (catalogDB [] []) emptyWriter []) = None"
    and c: "contents (snd (DumpDB (catalogDB [] []) emptyWriter [])) = ''BEGIN TRANSACTION;\<newline>COMMIT;\<newline>''"
    and u: "dumpDB unwrapped (catalogDB [] []) emptyWriter = (None, emptyWriter)"
    by (simp_all add: e)
  moreover have "DumpDB (catalogDB [] []) emptyWriter [] =
       (None, \<lparr>written = [''BEGIN TRANSACTION;\<newline>'', ''COMMIT;\<newline>''], faults = []\<rparr>)"
    by (simp add: DumpDB_def dumpDB_def newSqlite3Dumper_def getSchemas_catalogDB
        emptyWriter_def Write_def)
  ultimately show ?thesis using t o e by simp
qed

subsection \<open>C9: the deprecated entry point\<close>

text \<open>
  Claim C9: for every open database handle and output writer, the deprecated entry
  point \<open>DumpMigration db out\<close> produces exactly the same output and the same error
  result as \<open>DumpDB db out [WithMigration]\<close>: the legacy entry point is a call-through
  to the configurable dump with migration mode pinned on and all other options at their
  defaults.
\<close>

theorem DumpMigration_is_DumpDB_WithMigration:
  "DumpMigration db out = DumpDB db out [WithMigration]
   \<and> newSqlite3Dumper [WithMigration]
       = \<lparr>migration = True, dropIfExists = False, wrapWithTransaction = True\<rparr>"
  by (simp add: DumpMigration_def DumpDB_def newSqlite3Dumper_def WithMigration_def)

subsection \<open>C10: what migration mode leaves out\<close>

text \<open>
  Claim C10: in schema-only (migration) mode, only the ordinary-table CREATE branch is
  suppressed: for every database, the special-case statements
  \<^verbatim>\<open>DELETE FROM "sqlite_sequence";\<close> and \<^verbatim>\<open>ANALYZE "sqlite_master";\<close> (when their
  trigger tables are present) and all index/trigger/view definition statements are
  still emitted exactly as in full-dump mode.

  The two runs of \<open>dumpDB\<close>, with \<open>migration\<close> off and on and the configuration
  otherwise the same, differ in the table phase only: in migration mode it is the
  table phase of the full dump for the rows named \<^verbatim>\<open>sqlite_sequence\<close> or
  \<^verbatim>\<open>sqlite3_stat1\<close> alone, which is one DELETE or ANALYZE statement for each.
\<close>

theorem migration_suppresses_table_definitions_only:
  assumes "faults out = []"
    and "getSchemas db tableSchemasQuery = (tables, None)"
    and "getSchemas db otherSchemasQuery = (others, None)"
  shows \<open>dumpDB (s3d\<lparr>migration := False\<rparr>) db out =
     (None, out\<lparr>written := written out @ beginStatements s3d
        @ (if dropIfExists s3d then dropStatements (others @ tables) else [])
        @ tableStatements (s3d\<lparr>migration := False\<rparr>) tables
        @ map (\<lambda>s. SQL s @ '';\<newline>'') others @ commitStatements s3d\<rparr>)
   \<and> dumpDB (s3d\<lparr>migration := True\<rparr>) db out =
     (None, out\<lparr>written := written out @ beginStatements s3d
        @ (if dropIfExists s3d then dropStatements (others @ tables) else [])
        @ tableStatements (s3d\<lparr>migration := False\<rparr>) (filter specialTable tables)
        @ map (\<lambda>s. SQL s @ '';\<newline>'') others @ commitStatements s3d\<rparr>)
   \<and> tableStatements (s3d\<lparr>migration := False\<rparr>) (filter specialTable tables) =
       map (\<lambda>s. if Name s = ''sqlite_sequence'' then ''DELETE FROM "sqlite_sequence";\<newline>''
                 else ''ANALYZE "sqlite_master";\<newline>'') (filter specialTable tables)\<close>
proof -
  let ?full = "s3d\<lparr>migration := False\<rparr>" and ?mig = "s3d\<lparr>migration := True\<rparr>"
  have "concat (map (\<lambda>s. tableStatements ?mig [s]) tables)
      = concat (map (\<lambda>s. tableStatements ?full [s]) (filter specialTable tables))"
    by (induction tables) (simp_all add: tableStatements_single specialTable_def)
  then have m: "tableStatements ?mig tables = tableStatements ?full (filter specialTable tables)"
    by (simp only: tableStatements_concat [symmetric])
  have \<open>concat (map (\<lambda>s. tableStatements ?full [s]) (filter specialTable tables)) =
       map (\<lambda>s. if Name s = ''sqlite_sequence'' then ''DELETE FROM "sqlite_sequence";\<newline>''
                 else ''ANALYZE "sqlite_master";\<newline>'') (filter specialTable tables)\<close>
    by (induction tables) (simp_all add: tableStatements_single specialTable_def)
  then have sp: \<open>tableStatements ?full (filter specialTable tables) =
       map (\<lambda>s. if Name s = ''sqlite_sequence'' then ''DELETE FROM "sqlite_sequence";\<newline>''
                 else ''ANALYZE "sqlite_master";\<newline>'') (filter specialTable tables)\<close>
    by (simp only: tableStatements_concat [symmetric])
  show ?thesis
    using sp
    by (simp add: dumpDB_reliable [OF assms] m beginStatements_eq commitStatements_eq
        otherStatements_eq)
qed

theorem migration_suppresses_table_definitions_only_witness:
  \<open>dumpDB (dropping\<lparr>migration := False\<rparr>) sampleDB emptyWriter =
     (None, \<lparr>written =
         [''BEGIN TRANSACTION;\<newline>'',
          ''DROP INDEX IF EXISTS users_name;\<newline>'',
          ''DROP TABLE IF EXISTS docs_data;\<newline>'',
          ''DROP TABLE IF EXISTS users;\<newline>'',
          ''DELETE FROM "sqlite_sequence";\<newline>'',
          ''CREATE TABLE users(id INTEGER PRIMARY KEY AUTOINCREMENT, name TEXT);\<newline>'',
          ''CREATE VIEW users_v AS SELECT name FROM users;\<newline>'',
          ''CREATE INDEX users_name ON users(name);\<newline>'',
          ''COMMIT;\<newline>''], faults = []\<rparr>)
   \<and> dumpDB (dropping\<lparr>migration := True\<rparr>) sampleDB emptyWriter =
     (None, \<lparr>written =
         [''BEGIN TRANSACTION;\<newline>'',
          ''DROP INDEX IF EXISTS users_name;\<newline>'',
          ''DROP TABLE IF EXISTS docs_data;\<newline>'',
          ''DROP TABLE IF EXISTS users;\<newline>'',
          ''DELETE FROM "sqlite_sequence";\<newline>'',
          ''CREATE VIEW users_v AS SELECT name FROM users;\<newline>'',
          ''CREATE INDEX users_name ON users(name);\<newline>'',
          ''COMMIT;\<newline>''], faults = []\<rparr>)\<close>
proof -
  have sp: "filter specialTable [docsData, sqliteSequence, users] = [sqliteSequence]"
    by (simp add: specialTable_def sample_Names)
  have ds: "dropStatements [usersView, usersIndex, docsData, sqliteSequence, users] =
      [''DROP INDEX IF EXISTS users_name;\<newline>'', ''DROP TABLE IF EXISTS docs_data;\<newline>'',
       ''DROP TABLE IF EXISTS users;\<newline>'']"
    using dropStatements_append [of "[usersView, usersIndex]" "[docsData, sqliteSequence, users]"]
      dropStatements_append [of "[docsData]" "[sqliteSequence, users]"]
      dropStatements_append [of "[sqliteSequence]" "[users]"]
    by (simp add: sample_dropStatements)
  have cfg: "dropIfExists dropping" "wrapWithTransaction dropping"
    by (simp_all add: dropping_def)
  from migration_suppresses_table_definitions_only [OF sample_faults(1) sample_getSchemas,
      of dropping]
  show ?thesis
    unfolding sp
    by (simp add: sample_faults beginStatements_eq commitStatements_eq sample_tableStatements_all
        sample_tableStatements ds cfg sample_SQLs sample_Names emptyWriter_def)
qed

end
